theory Spec2Isabelle
  imports Main "HOL-Library.Word"
begin

section \<open>The variant of \<^verbatim>\<open>variant.hpp\<close>\<close>

text \<open>
  A shallow embedding of \<^verbatim>\<open>mapbox::util::variant<Types...>\<close>. The template parameter
  pack \<^verbatim>\<open>Types...\<close> is a list of type names \<open>'t list\<close>, handed to every function that the
  source instantiates with it. The payloads of all alternatives live in one universe
  \<open>'v\<close>; what a type's constructors, comparison operators and destructor do is not part
  of \<^verbatim>\<open>variant.hpp\<close> and is a parameter of the functions that call them.

  The alternatives considered are stored directly: the specialisations of
  \<^verbatim>\<open>unwrapper\<close> and the overloads of \<^verbatim>\<open>get\<close> for \<^verbatim>\<open>recursive_wrapper<T>\<close> and
  \<^verbatim>\<open>std::reference_wrapper<T>\<close> are not covered (\<^verbatim>\<open>recursive_wrapper.hpp\<close> is not among
  the sources), so \<^verbatim>\<open>unwrapper<T>\<close> is the identity of its primary template.
\<close>

subsection \<open>Outcomes\<close>

text \<open>
  \<open>bad_variant_access\<close> is the exception class of the source (lines 40-50), carrying
  its \<^verbatim>\<open>what_arg\<close>. \<open>thrown\<close> is an exception of an alternative's constructor or of a
  visitor, which the library passes on. \<open>terminate\<close> is an exception leaving a
  \<^verbatim>\<open>noexcept\<close> function. \<open>static_assert_failed\<close> and \<open>no_matching_function\<close> are the
  two ways the source rejects an instantiation when it is compiled: a
  \<^verbatim>\<open>static_assert\<close> with its message and an \<^verbatim>\<open>enable_if\<close> that removes the only
  overload. \<open>undefined_behaviour\<close> is a read of storage that holds no live object.
\<close>

datatype error =
    bad_variant_access string
  | thrown string
  | terminate
  | static_assert_failed string
  | no_matching_function
  | undefined_behaviour

text \<open>An exception leaving a \<^verbatim>\<open>noexcept\<close> function calls \<^verbatim>\<open>std::terminate\<close>.\<close>

fun noexcept :: "error \<Rightarrow> error" where
  "noexcept (thrown m) = terminate"
| "noexcept (bad_variant_access m) = terminate"
| "noexcept e = e"

type_synonym size_t = "64 word"

definition invalid_value :: size_t where
  "invalid_value = - 1"

text \<open>\<^verbatim>\<open>sizeof...(Types)\<close>, a \<^verbatim>\<open>std::size_t\<close>.\<close>

definition sizeof_pack :: "'t list \<Rightarrow> size_t" where
  "sizeof_pack Types = of_nat (length Types)"

subsection \<open>Type resolution (lines 65-130)\<close>

fun direct_type :: "'t \<Rightarrow> 't list \<Rightarrow> size_t" where
  "direct_type T [] = invalid_value"
| "direct_type T (First # Types) =
     (if T = First then sizeof_pack Types else direct_type T Types)"

text \<open>\<open>is_convertible T U\<close> stands for \<^verbatim>\<open>std::is_convertible<T, U>::value\<close>.\<close>

fun convertible_type :: "('t \<Rightarrow> 't \<Rightarrow> bool) \<Rightarrow> 't \<Rightarrow> 't list \<Rightarrow> size_t" where
  "convertible_type is_convertible T [] = invalid_value"
| "convertible_type is_convertible T (First # Types) =
     (if is_convertible T First then sizeof_pack Types
      else convertible_type is_convertible T Types)"

definition value_traits_index :: "('t \<Rightarrow> 't \<Rightarrow> bool) \<Rightarrow> 't \<Rightarrow> 't list \<Rightarrow> size_t" where
  "value_traits_index is_convertible T Types =
     (let direct_index = direct_type T Types
      in if direct_index = invalid_value then convertible_type is_convertible T Types
         else direct_index)"

fun has_type :: "'t \<Rightarrow> 't list \<Rightarrow> bool" where
  "has_type T [] = False"
| "has_type T (First # Types) = (T = First \<or> has_type T Types)"

fun is_valid_type :: "('t \<Rightarrow> 't \<Rightarrow> bool) \<Rightarrow> 't \<Rightarrow> 't list \<Rightarrow> bool" where
  "is_valid_type is_convertible T [] = False"
| "is_valid_type is_convertible T (First # Types) =
     (is_convertible T First \<or> is_valid_type is_convertible T Types)"

subsection \<open>The object (lines 552-579)\<close>

text \<open>
  \<open>data\<close> is the aligned storage: \<open>Some x\<close> when an object with value \<open>x\<close> lives in it,
  \<open>None\<close> when it holds no object (never constructed, or destroyed).
\<close>

record 'v variant =
  type_index :: size_t
  data :: "'v option"

definition empty_pack_message :: string where
  "empty_pack_message = ''Template parameter type list of variant can not be empty''"

text \<open>
  \<^verbatim>\<open>variant()\<close>. \<open>default_ctor T\<close> is \<open>None\<close> when \<open>T\<close> is not default constructible, and
  otherwise what \<^verbatim>\<open>T()\<close> does: the value, or the exception it throws.
\<close>

definition variant_default :: "('t \<Rightarrow> (error + 'v) option) \<Rightarrow> 't list \<Rightarrow> error + 'v variant" where
  "variant_default default_ctor Types =
     (case Types of
        [] \<Rightarrow> Inl (static_assert_failed empty_pack_message)
      | first_type # _ \<Rightarrow>
          (case default_ctor first_type of
             None \<Rightarrow> Inl (static_assert_failed
               ''First type in variant must be default constructible to allow default construction of variant'')
           | Some (Inl e) \<Rightarrow> Inl e
           | Some (Inr x) \<Rightarrow> Inr \<lparr>type_index = sizeof_pack Types - 1, data = Some x\<rparr>))"

text \<open>\<^verbatim>\<open>variant(no_init)\<close>.\<close>

definition variant_no_init :: "'v variant" where
  "variant_no_init = \<lparr>type_index = invalid_value, data = None\<rparr>"

text \<open>
  \<^verbatim>\<open>variant(T && val) noexcept\<close> (lines 582-590); \<open>T\<close> is the argument's type after
  \<^verbatim>\<open>std::remove_reference\<close>. \<open>construct U T val\<close> is \<^verbatim>\<open>U(std::forward<T>(val))\<close>: the
  value constructed, or the exception thrown. The \<^verbatim>\<open>enable_if\<close> on \<^verbatim>\<open>is_valid_type\<close>
  removes the constructor for other types, and \<^verbatim>\<open>std::tuple_element\<close> does not compile
  for an index past the pack.
\<close>

definition variant_from ::
  "('t \<Rightarrow> 't \<Rightarrow> bool) \<Rightarrow> ('t \<Rightarrow> 't \<Rightarrow> 'v \<Rightarrow> error + 'v) \<Rightarrow> 't list \<Rightarrow> 't \<Rightarrow> 'v \<Rightarrow> error + 'v variant" where
  "variant_from is_convertible construct Types T val =
     (if \<not> is_valid_type is_convertible T Types then Inl no_matching_function
      else
        let ti = value_traits_index is_convertible T Types;
            index = sizeof_pack Types - ti - 1
        in if length Types \<le> unat index then Inl (static_assert_failed ''tuple index out of range'')
           else
             let target_type = Types ! unat index
             in (case construct target_type T val of
                   Inl e \<Rightarrow> Inl (noexcept e)
                 | Inr x \<Rightarrow> Inr \<lparr>type_index = ti, data = Some x\<rparr>))"

subsection \<open>Inspection and access (lines 653-775)\<close>

definition variant_is :: "'t list \<Rightarrow> 't \<Rightarrow> 'v variant \<Rightarrow> error + bool" where
  "variant_is Types T v =
     (if has_type T Types then Inr (type_index v = direct_type T Types)
      else Inl (static_assert_failed ''invalid type in T in `is<T>()` for this variant''))"

definition valid :: "'v variant \<Rightarrow> bool" where
  "valid v = (type_index v \<noteq> invalid_value)"

text \<open>
  \<^verbatim>\<open>get<T>()\<close> (lines 675-703, the two overloads are the same but for \<^verbatim>\<open>const\<close>): the
  \<^verbatim>\<open>enable_if\<close> first, then the body.
\<close>

definition get :: "'t list \<Rightarrow> 't \<Rightarrow> 'v variant \<Rightarrow> error + 'v" where
  "get Types T v =
     (if direct_type T Types = invalid_value then Inl no_matching_function
      else if type_index v = direct_type T Types then
        (case data v of Some x \<Rightarrow> Inr x | None \<Rightarrow> Inl undefined_behaviour)
      else Inl (bad_variant_access ''in get<T>()''))"

text \<open>
  The overload that is not \<^verbatim>\<open>const\<close> (lines 678-688), as a method that may write to
  its object: the result and the object afterwards. The body writes to no member.
\<close>

definition get_nonconst :: "'t list \<Rightarrow> 't \<Rightarrow> 'v variant \<Rightarrow> (error + 'v) \<times> 'v variant" where
  "get_nonconst Types T v = (get Types T v, v)"

definition get_type_index :: "'v variant \<Rightarrow> size_t" where
  "get_type_index v = type_index v"

text \<open>\<^verbatim>\<open>which()\<close>: the \<^verbatim>\<open>static_cast<int>\<close> keeps the low 32 bits, read signed.\<close>

definition which :: "'t list \<Rightarrow> 'v variant \<Rightarrow> int" where
  "which Types v = sint (ucast (sizeof_pack Types - type_index v - 1) :: 32 word)"

subsection \<open>Lifecycle dispatch (lines 180-247)\<close>

text \<open>
  What a constructor or destructor of an alternative does is outside the source; the
  model keeps the calls the library makes, in program order, as a trace, together with
  the writes to the tag.
\<close>

datatype 't effect =
    Destroy 't
  | Copy 't
  | Move 't
  | Construct 't
  | Tag size_t

text \<open>
  \<^verbatim>\<open>variant_helper<Types...>::destroy(id, data)\<close>: the destructor calls made and the
  storage afterwards.
\<close>

fun variant_helper_destroy :: "'t list \<Rightarrow> size_t \<Rightarrow> 'v option \<Rightarrow> 't effect list \<times> 'v option" where
  "variant_helper_destroy [] tid storage = ([], storage)"
| "variant_helper_destroy (T # Types) tid storage =
     (if tid = sizeof_pack Types then ([Destroy T], None)
      else variant_helper_destroy Types tid storage)"

text \<open>
  \<^verbatim>\<open>variant_helper<Types...>::move(old_id, old_value, new_value)\<close>. \<open>move_ctor T x\<close> is
  \<^verbatim>\<open>T(std::move(x))\<close>: the value constructed or the exception thrown, and what the move
  leaves in the source. The result is the trace, the exception if any, and the two
  storages afterwards.
\<close>

fun variant_helper_move ::
  "('t \<Rightarrow> 'v \<Rightarrow> (error + 'v) \<times> 'v) \<Rightarrow> 't list \<Rightarrow> size_t \<Rightarrow> 'v option \<Rightarrow> 'v option
   \<Rightarrow> 't effect list \<times> error option \<times> 'v option \<times> 'v option" where
  "variant_helper_move move_ctor [] old_id old_value new_value = ([], None, old_value, new_value)"
| "variant_helper_move move_ctor (T # Types) old_id old_value new_value =
     (if old_id = sizeof_pack Types then
        (case old_value of
           None \<Rightarrow> ([Move T], Some undefined_behaviour, old_value, new_value)
         | Some x \<Rightarrow>
             (case move_ctor T x of
                (Inl e, x') \<Rightarrow> ([Move T], Some e, Some x', new_value)
              | (Inr y, x') \<Rightarrow> ([Move T], None, Some x', Some y)))
      else variant_helper_move move_ctor Types old_id old_value new_value)"

text \<open>
  \<^verbatim>\<open>variant_helper<Types...>::copy(old_id, old_value, new_value)\<close>. \<open>copy_ctor T x\<close> is
  \<^verbatim>\<open>T(x)\<close> for a \<^verbatim>\<open>const\<close> \<open>x\<close>. The result is the trace, the exception if any, and the
  new storage.
\<close>

fun variant_helper_copy ::
  "('t \<Rightarrow> 'v \<Rightarrow> error + 'v) \<Rightarrow> 't list \<Rightarrow> size_t \<Rightarrow> 'v option \<Rightarrow> 'v option
   \<Rightarrow> 't effect list \<times> error option \<times> 'v option" where
  "variant_helper_copy copy_ctor [] old_id old_value new_value = ([], None, new_value)"
| "variant_helper_copy copy_ctor (T # Types) old_id old_value new_value =
     (if old_id = sizeof_pack Types then
        (case old_value of
           None \<Rightarrow> ([Copy T], Some undefined_behaviour, new_value)
         | Some x \<Rightarrow>
             (case copy_ctor T x of
                Inl e \<Rightarrow> ([Copy T], Some e, new_value)
              | Inr y \<Rightarrow> ([Copy T], None, Some y)))
      else variant_helper_copy copy_ctor Types old_id old_value new_value)"

subsection \<open>Copy, move, destruction (lines 592-602, 825-828)\<close>


text \<open>
  \<^verbatim>\<open>variant(variant<Types...> && old) noexcept\<close>: the trace, the new object (or why there
  is none) and \<open>old\<close> afterwards.
\<close>

definition variant_move ::
  "('t \<Rightarrow> 'v \<Rightarrow> (error + 'v) \<times> 'v) \<Rightarrow> 't list \<Rightarrow> 'v variant
   \<Rightarrow> 't effect list \<times> (error + 'v variant) \<times> 'v variant" where
  "variant_move move_ctor Types old =
     (case variant_helper_move move_ctor Types (type_index old) (data old) None of
        (tr, Some e, old_value, d) \<Rightarrow> (tr, Inl (noexcept e), old\<lparr>data := old_value\<rparr>)
      | (tr, None, old_value, d) \<Rightarrow>
          (tr, Inr \<lparr>type_index = type_index old, data = d\<rparr>, old\<lparr>data := old_value\<rparr>))"

text \<open>\<^verbatim>\<open>~variant() noexcept\<close>: the trace and the storage that is given up.\<close>

definition variant_dtor :: "'t list \<Rightarrow> 'v variant \<Rightarrow> 't effect list \<times> 'v option" where
  "variant_dtor Types v = variant_helper_destroy Types (type_index v) (data v)"

subsection \<open>Assignment and \<^verbatim>\<open>set\<close> (lines 604-642, 665-672)\<close>

text \<open>
  \<^verbatim>\<open>copy_assign\<close> and \<^verbatim>\<open>move_assign\<close> take \<^verbatim>\<open>this\<close> and a reference \<^verbatim>\<open>rhs\<close>, which may
  be the same object: the objects live in a store \<open>s\<close>, addressed by \<open>'a\<close>, and every
  statement reads and writes the store. The result is the trace, the exception that
  left the function if any, and the store afterwards.
\<close>

definition copy_assign ::
  "('t \<Rightarrow> 'v \<Rightarrow> error + 'v) \<Rightarrow> 't list \<Rightarrow> 'a \<Rightarrow> 'a \<Rightarrow> ('a \<Rightarrow> 'v variant)
   \<Rightarrow> 't effect list \<times> error option \<times> ('a \<Rightarrow> 'v variant)" where
  "copy_assign copy_ctor Types this rhs s =
     (let (tr1, d1) = variant_helper_destroy Types (type_index (s this)) (data (s this));
          s1 = s(this := (s this)\<lparr>data := d1\<rparr>);
          s2 = s1(this := (s1 this)\<lparr>type_index := invalid_value\<rparr>);
          (tr3, exn, d3) =
             variant_helper_copy copy_ctor Types (type_index (s2 rhs)) (data (s2 rhs)) (data (s2 this));
          s3 = s2(this := (s2 this)\<lparr>data := d3\<rparr>)
      in case exn of
           Some e \<Rightarrow> (tr1 @ [Tag invalid_value] @ tr3, Some e, s3)
         | None \<Rightarrow>
             (tr1 @ [Tag invalid_value] @ tr3 @ [Tag (type_index (s3 rhs))], None,
              s3(this := (s3 this)\<lparr>type_index := type_index (s3 rhs)\<rparr>)))"







text \<open>
  \<^verbatim>\<open>set<T>(args...)\<close>. \<open>ctor T args\<close> is \<^verbatim>\<open>T(std::forward<Args>(args)...)\<close>. The source
  puts no \<^verbatim>\<open>static_assert\<close> and no \<^verbatim>\<open>enable_if\<close> on \<open>T\<close>.
\<close>

definition variant_set ::
  "('t \<Rightarrow> 'args \<Rightarrow> error + 'v) \<Rightarrow> 't list \<Rightarrow> 't \<Rightarrow> 'args \<Rightarrow> 'v variant
   \<Rightarrow> 't effect list \<times> error option \<times> 'v variant" where
  "variant_set ctor Types T args v =
     (let (tr1, d1) = variant_helper_destroy Types (type_index v) (data v);
          v1 = v\<lparr>data := d1\<rparr>;
          v2 = v1\<lparr>type_index := invalid_value\<rparr>
      in case ctor T args of
           Inl e \<Rightarrow> (tr1 @ [Tag invalid_value, Construct T], Some e, v2)
         | Inr x \<Rightarrow>
             (tr1 @ [Tag invalid_value, Construct T, Tag (direct_type T Types)], None,
              v2\<lparr>data := Some x, type_index := direct_type T Types\<rparr>))"

subsection \<open>Visitation (lines 249-507, 777-823)\<close>

definition unwrapper_apply_const :: "'t \<Rightarrow> 'v \<Rightarrow> 'v" where
  "unwrapper_apply_const T obj = obj"

text \<open>
  A unary visitor takes the static type of its argument (the instance of its call
  operator that is chosen) and the value; it may throw. \<open>all\<close> is the pack of the
  variant \<open>V\<close>, the list argument the pack \<^verbatim>\<open>T, Types...\<close> of the dispatcher. The primary
  template has no definition, so an empty pack does not compile. \<^verbatim>\<open>apply\<close> differs
  from \<^verbatim>\<open>apply_const\<close> in \<^verbatim>\<open>const\<close> only. \<open>call_unary\<close> is the call
  \<^verbatim>\<open>f(unwrapper<T>::apply_const(v.get<T>()))\<close>.
\<close>

definition call_unary :: "'t list \<Rightarrow> ('t \<Rightarrow> 'v \<Rightarrow> error + 'r) \<Rightarrow> 't \<Rightarrow> 'v variant \<Rightarrow> error + 'r" where
  "call_unary all f T v =
     (case get all T v of Inl e \<Rightarrow> Inl e | Inr x \<Rightarrow> f T (unwrapper_apply_const T x))"

fun dispatcher_apply_const ::
  "'t list \<Rightarrow> ('t \<Rightarrow> 'v \<Rightarrow> error + 'r) \<Rightarrow> 'v variant \<Rightarrow> 't list \<Rightarrow> error + 'r" where
  "dispatcher_apply_const all f v [] = Inl (static_assert_failed empty_pack_message)"
| "dispatcher_apply_const all f v [T] = call_unary all f T v"
| "dispatcher_apply_const all f v (T # Types) =
     (if get_type_index v = sizeof_pack Types then call_unary all f T v
      else dispatcher_apply_const all f v Types)"

definition visit :: "'t list \<Rightarrow> ('t \<Rightarrow> 'v \<Rightarrow> error + 'r) \<Rightarrow> 'v variant \<Rightarrow> error + 'r" where
  "visit Types f v = dispatcher_apply_const Types f v Types"

text \<open>
  The call of a binary visitor on \<^verbatim>\<open>a.get<A>()\<close> and \<^verbatim>\<open>b.get<B>()\<close>; the two accesses
  are taken left to right.
\<close>

definition call_binary ::
  "'t list \<Rightarrow> ('t \<Rightarrow> 'v \<Rightarrow> 't \<Rightarrow> 'v \<Rightarrow> error + 'r) \<Rightarrow> 't \<Rightarrow> 'v variant \<Rightarrow> 't \<Rightarrow> 'v variant \<Rightarrow> error + 'r" where
  "call_binary all f A a B b =
     (case get all A a of
        Inl e \<Rightarrow> Inl e
      | Inr x \<Rightarrow>
          (case get all B b of
             Inl e \<Rightarrow> Inl e
           | Inr y \<Rightarrow> f A (unwrapper_apply_const A x) B (unwrapper_apply_const B y)))"

text \<open>\<^verbatim>\<open>binary_dispatcher_rhs<F, V, R, T0, T1, Types...>\<close>: the list is \<^verbatim>\<open>T1, Types...\<close>.\<close>

fun binary_dispatcher_rhs_apply_const ::
  "'t list \<Rightarrow> ('t \<Rightarrow> 'v \<Rightarrow> 't \<Rightarrow> 'v \<Rightarrow> error + 'r) \<Rightarrow> 'v variant \<Rightarrow> 'v variant \<Rightarrow> 't \<Rightarrow> 't list
   \<Rightarrow> error + 'r" where
  "binary_dispatcher_rhs_apply_const all f lhs rhs T0 [] =
     Inl (static_assert_failed empty_pack_message)"
| "binary_dispatcher_rhs_apply_const all f lhs rhs T0 [T1] = call_binary all f T0 lhs T1 rhs"
| "binary_dispatcher_rhs_apply_const all f lhs rhs T0 (T1 # Types) =
     (if get_type_index rhs = sizeof_pack Types then call_binary all f T0 lhs T1 rhs
      else binary_dispatcher_rhs_apply_const all f lhs rhs T0 Types)"

text \<open>\<^verbatim>\<open>binary_dispatcher_lhs<F, V, R, T0, T1, Types...>\<close>: the list is \<^verbatim>\<open>T1, Types...\<close>.\<close>

fun binary_dispatcher_lhs_apply_const ::
  "'t list \<Rightarrow> ('t \<Rightarrow> 'v \<Rightarrow> 't \<Rightarrow> 'v \<Rightarrow> error + 'r) \<Rightarrow> 'v variant \<Rightarrow> 'v variant \<Rightarrow> 't \<Rightarrow> 't list
   \<Rightarrow> error + 'r" where
  "binary_dispatcher_lhs_apply_const all f lhs rhs T0 [] =
     Inl (static_assert_failed empty_pack_message)"
| "binary_dispatcher_lhs_apply_const all f lhs rhs T0 [T1] = call_binary all f T1 lhs T0 rhs"
| "binary_dispatcher_lhs_apply_const all f lhs rhs T0 (T1 # Types) =
     (if get_type_index lhs = sizeof_pack Types then call_binary all f T1 lhs T0 rhs
      else binary_dispatcher_lhs_apply_const all f lhs rhs T0 Types)"

fun binary_dispatcher_apply_const ::
  "'t list \<Rightarrow> ('t \<Rightarrow> 'v \<Rightarrow> 't \<Rightarrow> 'v \<Rightarrow> error + 'r) \<Rightarrow> 'v variant \<Rightarrow> 'v variant \<Rightarrow> 't list
   \<Rightarrow> error + 'r" where
  "binary_dispatcher_apply_const all f v0 v1 [] = Inl (static_assert_failed empty_pack_message)"
| "binary_dispatcher_apply_const all f v0 v1 [T] = call_binary all f T v0 T v1"
| "binary_dispatcher_apply_const all f v0 v1 (T # Types) =
     (if get_type_index v0 = sizeof_pack Types then
        (if get_type_index v0 = get_type_index v1 then call_binary all f T v0 T v1
         else binary_dispatcher_rhs_apply_const all f v0 v1 T Types)
      else if get_type_index v1 = sizeof_pack Types then
        binary_dispatcher_lhs_apply_const all f v0 v1 T Types
      else binary_dispatcher_apply_const all f v0 v1 Types)"

definition binary_visit ::
  "'t list \<Rightarrow> ('t \<Rightarrow> 'v \<Rightarrow> 't \<Rightarrow> 'v \<Rightarrow> error + 'r) \<Rightarrow> 'v variant \<Rightarrow> 'v variant \<Rightarrow> error + 'r" where
  "binary_visit Types f v0 v1 = binary_dispatcher_apply_const Types f v0 v1 Types"

subsection \<open>Comparison (lines 510-545, 830-849)\<close>

text \<open>
  \<open>eq T\<close> and \<open>lt T\<close> are \<^verbatim>\<open>operator==\<close> and \<^verbatim>\<open>operator<\<close> of the alternative \<open>T\<close>, taken
  to return without throwing.
\<close>

definition equal_comp :: "('t \<Rightarrow> 'v \<Rightarrow> 'v \<Rightarrow> bool) \<Rightarrow> 't \<Rightarrow> 'v \<Rightarrow> 'v \<Rightarrow> bool" where
  "equal_comp eq T lhs rhs = eq T lhs rhs"

definition less_comp :: "('t \<Rightarrow> 'v \<Rightarrow> 'v \<Rightarrow> bool) \<Rightarrow> 't \<Rightarrow> 'v \<Rightarrow> 'v \<Rightarrow> bool" where
  "less_comp lt T lhs rhs = lt T lhs rhs"

text \<open>\<^verbatim>\<open>comparer<Variant, Comp>\<close>, constructed on \<open>lhs\<close>, as a visitor.\<close>

definition comparer ::
  "'t list \<Rightarrow> ('t \<Rightarrow> 'v \<Rightarrow> 'v \<Rightarrow> bool) \<Rightarrow> 'v variant \<Rightarrow> 't \<Rightarrow> 'v \<Rightarrow> error + bool" where
  "comparer Types cmp lhs T rhs_content =
     (case get Types T lhs of
        Inl e \<Rightarrow> Inl e
      | Inr lhs_content \<Rightarrow> Inr (cmp T lhs_content rhs_content))"

text \<open>\<^verbatim>\<open>operator==\<close> and \<^verbatim>\<open>operator<\<close> of the variant.\<close>

definition variant_equal ::
  "'t list \<Rightarrow> ('t \<Rightarrow> 'v \<Rightarrow> 'v \<Rightarrow> bool) \<Rightarrow> 'v variant \<Rightarrow> 'v variant \<Rightarrow> error + bool" where
  "variant_equal Types eq this rhs =
     (if get_type_index this \<noteq> get_type_index rhs then Inr False
      else visit Types (comparer Types (equal_comp eq) this) rhs)"

definition variant_less ::
  "'t list \<Rightarrow> ('t \<Rightarrow> 'v \<Rightarrow> 'v \<Rightarrow> bool) \<Rightarrow> 'v variant \<Rightarrow> 'v variant \<Rightarrow> error + bool" where
  "variant_less Types lt this rhs =
     (if get_type_index this \<noteq> get_type_index rhs then
        Inr (get_type_index this < get_type_index rhs)
      else visit Types (comparer Types (less_comp lt) this) rhs)"

subsection \<open>The alternative a tag selects\<close>

text \<open>
  Every scan of the source compares the tag with \<^verbatim>\<open>sizeof...(Types)\<close> of the remaining
  pack and stops at the first match. \<open>alternative_of_tag\<close> is the alternative such a
  scan stops at, if any; it is used to state what the scans do.
\<close>

fun alternative_of_tag :: "'t list \<Rightarrow> size_t \<Rightarrow> 't option" where
  "alternative_of_tag [] tid = None"
| "alternative_of_tag (T # Types) tid =
     (if tid = sizeof_pack Types then Some T else alternative_of_tag Types tid)"

subsection \<open>An instance: \<^verbatim>\<open>variant<int, long, std::string>\<close>\<close>

text \<open>
  Three alternative types and their values, to run the definitions on. \<^verbatim>\<open>int\<close> and
  \<^verbatim>\<open>long\<close> convert to each other; a moved-from string is empty. \<open>TConstLong\<close> is
  \<^verbatim>\<open>const long\<close>, the type \<^verbatim>\<open>std::remove_reference\<close> leaves of a \<^verbatim>\<open>long\<close> lvalue that is
  \<^verbatim>\<open>const\<close>: its values are those of \<^verbatim>\<open>long\<close>, \<^verbatim>\<open>std::is_same\<close> tells it apart from
  \<^verbatim>\<open>long\<close>, and it converts to \<^verbatim>\<open>long\<close> and to \<^verbatim>\<open>int\<close>.
\<close>

datatype cxx_type = TInt | TLong | TString | TConstLong

datatype cxx_value = IntV int | LongV int | StringV string

fun cxx_convertible :: "cxx_type \<Rightarrow> cxx_type \<Rightarrow> bool" where
  "cxx_convertible TInt TLong = True"
| "cxx_convertible TLong TInt = True"
| "cxx_convertible TConstLong TLong = True"
| "cxx_convertible TConstLong TInt = True"
| "cxx_convertible T U = (T = U)"

fun cxx_convert :: "cxx_type \<Rightarrow> cxx_value \<Rightarrow> error + cxx_value" where
  "cxx_convert TLong (IntV n) = Inr (LongV n)"
| "cxx_convert TInt (LongV n) = Inr (IntV n)"
| "cxx_convert TLong (LongV n) = Inr (LongV n)"
| "cxx_convert U x = Inl no_matching_function"

definition cxx_construct :: "cxx_type \<Rightarrow> cxx_type \<Rightarrow> cxx_value \<Rightarrow> error + cxx_value" where
  "cxx_construct U T x = (if T = U then Inr x else cxx_convert U x)"

fun cxx_default :: "cxx_type \<Rightarrow> (error + cxx_value) option" where
  "cxx_default TInt = Some (Inr (IntV 0))"
| "cxx_default TLong = Some (Inr (LongV 0))"
| "cxx_default TString = Some (Inr (StringV []))"
| "cxx_default TConstLong = Some (Inr (LongV 0))"



fun cxx_move :: "cxx_type \<Rightarrow> cxx_value \<Rightarrow> (error + cxx_value) \<times> cxx_value" where
  "cxx_move T (StringV s) = (Inr (StringV s), StringV [])"
| "cxx_move T x = (Inr x, x)"


definition cxx_eq :: "cxx_type \<Rightarrow> cxx_value \<Rightarrow> cxx_value \<Rightarrow> bool" where
  "cxx_eq T x y = (x = y)"

fun cxx_number :: "cxx_value \<Rightarrow> int option" where
  "cxx_number (IntV n) = Some n"
| "cxx_number (LongV n) = Some n"
| "cxx_number (StringV s) = None"

text \<open>Numbers by their value, strings by their length (enough to tell payloads apart).\<close>

fun cxx_less :: "cxx_type \<Rightarrow> cxx_value \<Rightarrow> cxx_value \<Rightarrow> bool" where
  "cxx_less T (StringV a) (StringV b) = (length a < length b)"
| "cxx_less T x y =
     (case cxx_number x of
        None \<Rightarrow> False
      | Some a \<Rightarrow> (case cxx_number y of None \<Rightarrow> False | Some b \<Rightarrow> a < b))"

text \<open>A binary visitor that adds two numbers, whatever their types.\<close>

definition cxx_sum :: "cxx_type \<Rightarrow> cxx_value \<Rightarrow> cxx_type \<Rightarrow> cxx_value \<Rightarrow> error + int" where
  "cxx_sum A x B y =
     (case cxx_number x of
        None \<Rightarrow> Inl (thrown ''not a number'')
      | Some a \<Rightarrow>
          (case cxx_number y of
             None \<Rightarrow> Inl (thrown ''not a number'')
           | Some b \<Rightarrow> Inr (a + b)))"


section \<open>Properties\<close>

subsection \<open>Tags\<close>

lemma unat_sizeof_pack: "length Types < 2 ^ 64 \<Longrightarrow> unat (sizeof_pack Types) = length Types"
  by (simp add: sizeof_pack_def unat_of_nat)

lemma unat_invalid_value: "unat invalid_value = 2 ^ 64 - 1"
  by (simp add: invalid_value_def unsigned_minus_1_eq_mask mask_eq_exp_minus_1)

lemma word_of_nat_inject64:
  assumes "m < 2 ^ 64" "n < 2 ^ 64"
  shows "(of_nat m :: size_t) = of_nat n \<longleftrightarrow> m = n"
proof
  assume "(of_nat m :: size_t) = of_nat n"
  then have "unat (of_nat m :: size_t) = unat (of_nat n :: size_t)" by simp
  with assms show "m = n" by (simp add: unat_of_nat)
qed simp

lemma sizeof_pack_not_invalid:
  assumes "Suc (length Types) < 2 ^ 64"
  shows "sizeof_pack Types \<noteq> invalid_value"
proof
  assume "sizeof_pack Types = invalid_value"
  then have "unat (sizeof_pack Types) = unat invalid_value" by simp
  with assms show False by (simp add: unat_sizeof_pack unat_invalid_value)
qed

lemma alternative_of_tag_bound:
  "length Types < 2 ^ 64 \<Longrightarrow> alternative_of_tag Types tid = Some T \<Longrightarrow> unat tid < length Types \<and> T \<in> set Types"
proof (induction Types)
  case Nil
  then show ?case by simp
next
  case (Cons U Types)
  show ?case
  proof (cases "tid = sizeof_pack Types")
    case True
    with Cons.prems show ?thesis by (simp add: unat_sizeof_pack)
  next
    case False
    with Cons show ?thesis by fastforce
  qed
qed

lemma alternative_of_tag_invalid:
  "length Types < 2 ^ 64 \<Longrightarrow> alternative_of_tag Types invalid_value = None"
  by (induction Types) (auto simp: sizeof_pack_not_invalid [symmetric])

lemma direct_type_tag:
  "T \<in> set Types \<Longrightarrow> \<exists>n<length Types. direct_type T Types = of_nat n"
proof (induction Types)
  case Nil
  then show ?case by simp
next
  case (Cons U Types)
  show ?case
  proof (cases "T = U")
    case True
    then show ?thesis by (auto simp: sizeof_pack_def)
  next
    case False
    with Cons obtain n where "n < length Types" "direct_type T Types = of_nat n"
      by auto
    with False show ?thesis by (auto intro!: exI [of _ n])
  qed
qed

lemma direct_type_valid:
  assumes "T \<in> set Types" "length Types < 2 ^ 64"
  shows "direct_type T Types \<noteq> invalid_value"
proof
  assume inv: "direct_type T Types = invalid_value"
  from direct_type_tag [OF assms(1)] obtain n
    where r: "n < length Types" "direct_type T Types = of_nat n" by blast
  from r inv have "unat (of_nat n :: size_t) = unat invalid_value" by simp
  with r(1) assms(2) show False by (simp add: unat_of_nat unat_invalid_value)
qed

lemma direct_type_outside: "T \<notin> set Types \<Longrightarrow> direct_type T Types = invalid_value"
  by (induction Types) auto

lemma has_type_set: "has_type T Types \<longleftrightarrow> T \<in> set Types"
  by (induction Types) auto

lemma alternative_of_direct_type:
  "T \<in> set Types \<Longrightarrow> length Types < 2 ^ 64 \<Longrightarrow> alternative_of_tag Types (direct_type T Types) = Some T"
proof (induction Types)
  case Nil
  then show ?case by simp
next
  case (Cons U Types)
  show ?case
  proof (cases "T = U")
    case True
    then show ?thesis by simp
  next
    case False
    with Cons.prems have mem: "T \<in> set Types" and len: "length Types < 2 ^ 64" by auto
    from direct_type_tag [OF mem] obtain n
      where r: "n < length Types" "direct_type T Types = of_nat n" by blast
    with len have "direct_type T Types \<noteq> sizeof_pack Types"
      by (simp add: sizeof_pack_def word_of_nat_inject64)
    with False Cons.IH [OF mem len] show ?thesis by simp
  qed
qed

lemma direct_type_inject:
  assumes "T \<in> set Types" "U \<in> set Types" "length Types < 2 ^ 64"
    and "direct_type T Types = direct_type U Types"
  shows "T = U"
proof -
  have "Some T = alternative_of_tag Types (direct_type T Types)"
    using alternative_of_direct_type [OF assms(1,3)] by (rule sym)
  also have "\<dots> = alternative_of_tag Types (direct_type U Types)"
    by (simp only: assms(4))
  also have "\<dots> = Some U"
    by (rule alternative_of_direct_type [OF assms(2,3)])
  finally show ?thesis by (rule option.inject [THEN iffD1])
qed

lemma direct_type_nth:
  "distinct Types \<Longrightarrow> i < length Types \<Longrightarrow>
   direct_type (Types ! i) Types = of_nat (length Types - Suc i)"
proof (induction Types arbitrary: i)
  case Nil
  then show ?case by simp
next
  case (Cons U Types)
  show ?case
  proof (cases i)
    case 0
    then show ?thesis by (simp add: sizeof_pack_def)
  next
    case (Suc k)
    with Cons.prems have "Types ! k \<noteq> U" "k < length Types" "distinct Types" by auto
    with Suc Cons.IH [of k] show ?thesis by simp
  qed
qed




subsection \<open>The scans\<close>

lemma variant_helper_destroy_scan:
  "variant_helper_destroy Types tid storage =
     (case alternative_of_tag Types tid of
        Some T \<Rightarrow> ([Destroy T], None)
      | None \<Rightarrow> ([], storage))"
  by (induction Types) simp_all

lemma variant_helper_copy_scan:
  "variant_helper_copy copy_ctor Types tid old_value new_value =
     (case alternative_of_tag Types tid of
        None \<Rightarrow> ([], None, new_value)
      | Some T \<Rightarrow>
          (case old_value of
             None \<Rightarrow> ([Copy T], Some undefined_behaviour, new_value)
           | Some x \<Rightarrow>
               (case copy_ctor T x of
                  Inl e \<Rightarrow> ([Copy T], Some e, new_value)
                | Inr y \<Rightarrow> ([Copy T], None, Some y))))"
  by (induction Types) simp_all

lemma variant_helper_move_scan:
  "variant_helper_move move_ctor Types tid old_value new_value =
     (case alternative_of_tag Types tid of
        None \<Rightarrow> ([], None, old_value, new_value)
      | Some T \<Rightarrow>
          (case old_value of
             None \<Rightarrow> ([Move T], Some undefined_behaviour, old_value, new_value)
           | Some x \<Rightarrow>
               (case move_ctor T x of
                  (Inl e, x') \<Rightarrow> ([Move T], Some e, Some x', new_value)
                | (Inr y, x') \<Rightarrow> ([Move T], None, Some x', Some y))))"
  by (induction Types) simp_all

lemma dispatcher_apply_const_scan:
  "Types \<noteq> [] \<Longrightarrow>
   dispatcher_apply_const all f v Types =
     call_unary all f
       (case alternative_of_tag Types (type_index v) of Some T \<Rightarrow> T | None \<Rightarrow> last Types) v"
proof (induction all f v Types rule: dispatcher_apply_const.induct)
  case (1 all f v)
  then show ?case by simp
next
  case (2 all f v T)
  then show ?case by simp
next
  case (3 all f v T U Types)
  then show ?case by (simp add: get_type_index_def cong: option.case_cong)
qed

lemma binary_dispatcher_rhs_scan:
  "alternative_of_tag Types (type_index rhs) = Some B \<Longrightarrow>
   binary_dispatcher_rhs_apply_const all f lhs rhs T0 Types = call_binary all f T0 lhs B rhs"
proof (induction all f lhs rhs T0 Types rule: binary_dispatcher_rhs_apply_const.induct)
  case (1 all f lhs rhs T0)
  then show ?case by simp
next
  case (2 all f lhs rhs T0 T1)
  then show ?case by (simp split: if_splits)
next
  case (3 all f lhs rhs T0 T1 U Types)
  then show ?case by (simp add: get_type_index_def split: if_splits)
qed

lemma binary_dispatcher_lhs_scan:
  "alternative_of_tag Types (type_index lhs) = Some A \<Longrightarrow>
   binary_dispatcher_lhs_apply_const all f lhs rhs T0 Types = call_binary all f A lhs T0 rhs"
proof (induction all f lhs rhs T0 Types rule: binary_dispatcher_lhs_apply_const.induct)
  case (1 all f lhs rhs T0)
  then show ?case by simp
next
  case (2 all f lhs rhs T0 T1)
  then show ?case by (simp split: if_splits)
next
  case (3 all f lhs rhs T0 T1 U Types)
  then show ?case by (simp add: get_type_index_def split: if_splits)
qed

lemma binary_dispatcher_scan:
  "alternative_of_tag Types (type_index v0) = Some A \<Longrightarrow>
   alternative_of_tag Types (type_index v1) = Some B \<Longrightarrow>
   binary_dispatcher_apply_const all f v0 v1 Types = call_binary all f A v0 B v1"
proof (induction all f v0 v1 Types rule: binary_dispatcher_apply_const.induct)
  case (1 all f v0 v1)
  then show ?case by simp
next
  case (2 all f v0 v1 T)
  then show ?case by (simp split: if_splits)
next
  case (3 all f v0 v1 T U Types)
  show ?case
  proof (cases "type_index v0 = sizeof_pack (U # Types)")
    case v0: True
    show ?thesis
    proof (cases "type_index v0 = type_index v1")
      case True
      with v0 "3.prems" show ?thesis by (simp add: get_type_index_def)
    next
      case False
      with v0 "3.prems" have "alternative_of_tag (U # Types) (type_index v1) = Some B" "A = T"
        by (simp_all)
      with v0 False show ?thesis
        by (simp add: get_type_index_def binary_dispatcher_rhs_scan del: alternative_of_tag.simps)
    qed
  next
    case v0: False
    show ?thesis
    proof (cases "type_index v1 = sizeof_pack (U # Types)")
      case True
      with v0 "3.prems" have "alternative_of_tag (U # Types) (type_index v0) = Some A" "B = T"
        by simp_all
      with v0 True show ?thesis
        by (simp add: get_type_index_def binary_dispatcher_lhs_scan del: alternative_of_tag.simps)
    next
      case False
      with v0 "3.prems" have "alternative_of_tag (U # Types) (type_index v0) = Some A"
        "alternative_of_tag (U # Types) (type_index v1) = Some B"
        by simp_all
      with v0 False "3.IH" show ?thesis
        by (simp add: get_type_index_def del: alternative_of_tag.simps)
    qed
  qed
qed

section \<open>The claims\<close>

subsection \<open>C2: construction from a value\<close>




lemma get_bad_access_iff:
  "(get Types T v = Inl (bad_variant_access m)) =
     (direct_type T Types \<noteq> invalid_value \<and> type_index v \<noteq> direct_type T Types \<and>
      m = ''in get<T>()'')"
  by (auto simp: get_def split: option.splits)

subsection \<open>C3: access to another alternative\<close>

text \<open>
  C3. Calling \<^verbatim>\<open>get<T>()\<close> on a variant whose active alternative is \<open>U\<close>, with \<open>U\<close>
  distinct from \<open>T\<close>, raises \<^verbatim>\<open>bad_variant_access\<close> with the message
  \<^verbatim>\<open>"in get<T>()"\<close> and leaves the variant unchanged: afterwards \<^verbatim>\<open>is<U>()\<close> still
  returns true and the stored value is the same. \<^verbatim>\<open>get\<close> raises it on a tag mismatch
  and in no other case.
\<close>

theorem get_mismatch_raises_bad_access:
  assumes "variant_is Types U v = Inr True" and "T \<in> set Types" and "T \<noteq> U"
    and "length Types < 2 ^ 64"
  shows "get Types T v = Inl (bad_variant_access ''in get<T>()'') \<and>
         get_nonconst Types T v = (Inl (bad_variant_access ''in get<T>()''), v) \<and>
         variant_is Types U (snd (get_nonconst Types T v)) = Inr True \<and>
         data (snd (get_nonconst Types T v)) = data v \<and>
         (\<forall>T' w m. (get Types T' w = Inl (bad_variant_access m)) =
            (direct_type T' Types \<noteq> invalid_value \<and> type_index w \<noteq> direct_type T' Types \<and>
             m = ''in get<T>()''))"
proof -
  from assms(1) have U: "U \<in> set Types" "type_index v = direct_type U Types"
    by (auto simp: variant_is_def has_type_set split: if_splits)
  have "direct_type T Types \<noteq> direct_type U Types"
    using direct_type_inject [OF assms(2) U(1) assms(4)] assms(3) by blast
  moreover have "direct_type T Types \<noteq> invalid_value"
    by (rule direct_type_valid [OF assms(2,4)])
  ultimately have "get Types T v = Inl (bad_variant_access ''in get<T>()'')"
    using U(2) by (simp add: get_def)
  with assms(1) show ?thesis
    by (simp add: get_nonconst_def get_bad_access_iff)
qed

theorem get_mismatch_raises_bad_access_witness:
  "get [TInt, TLong, TString] TString \<lparr>type_index = 2, data = Some (IntV 7)\<rparr> =
     Inl (bad_variant_access ''in get<T>()'') \<and>
   variant_is [TInt, TLong, TString] TInt
     (snd (get_nonconst [TInt, TLong, TString] TString \<lparr>type_index = 2, data = Some (IntV 7)\<rparr>)) =
     Inr True"
proof -
  have holds: "variant_is [TInt, TLong, TString] TInt \<lparr>type_index = 2, data = Some (IntV 7)\<rparr> = Inr True"
    by (simp add: variant_is_def sizeof_pack_def)
  have "TString \<in> set [TInt, TLong, TString]" and "TString \<noteq> TInt"
    and "length [TInt, TLong, TString] < 2 ^ 64"
    by simp_all
  from get_mismatch_raises_bad_access [OF holds this] show ?thesis
    by blast
qed

lemma holds_alternative:
  "variant_is Types T v = Inr True \<longleftrightarrow> T \<in> set Types \<and> type_index v = direct_type T Types"
  by (auto simp: variant_is_def has_type_set)

lemma visit_active:
  assumes "T \<in> set Types" and "type_index v = direct_type T Types" and "length Types < 2 ^ 64"
  shows "visit Types f v = call_unary Types f T v"
proof -
  from assms(1) have "Types \<noteq> []" by auto
  then show ?thesis
    unfolding visit_def
    by (simp add: dispatcher_apply_const_scan assms(2) alternative_of_direct_type [OF assms(1,3)])
qed

lemma visit_invalid:
  assumes "Types \<noteq> []" and "length Types < 2 ^ 64" and "type_index v = invalid_value"
  shows "visit Types f v = Inl (bad_variant_access ''in get<T>()'')"
proof -
  from assms(1) have mem: "last Types \<in> set Types" by simp
  have "direct_type (last Types) Types \<noteq> invalid_value"
    by (rule direct_type_valid [OF mem assms(2)])
  then have "call_unary Types f (last Types) v = Inl (bad_variant_access ''in get<T>()'')"
    using assms(3) by (simp add: call_unary_def get_def)
  with assms show ?thesis
    unfolding visit_def
    by (simp add: dispatcher_apply_const_scan alternative_of_tag_invalid)
qed

lemma comparer_active:
  assumes "T \<in> set Types" and "type_index a = direct_type T Types"
    and "type_index b = direct_type T Types" and "length Types < 2 ^ 64"
    and "data a = Some x" and "data b = Some y"
  shows "visit Types (comparer Types cmp a) b = Inr (cmp T x y)"
proof -
  have "direct_type T Types \<noteq> invalid_value"
    by (rule direct_type_valid [OF assms(1,4)])
  then show ?thesis
    using assms
    by (simp add: visit_active [OF assms(1,3,4)] call_unary_def comparer_def get_def
        unwrapper_apply_const_def)
qed

subsection \<open>C10: comparing two empty variants\<close>

text \<open>
  C10. For two variants that are both empty (the state \<^verbatim>\<open>variant(no_init)\<close> gives),
  \<^verbatim>\<open>operator==\<close> and \<^verbatim>\<open>operator<\<close> return no result: the tags are equal, the visit
  falls through to the last alternative, and \<^verbatim>\<open>get\<close> for it raises
  \<^verbatim>\<open>bad_variant_access\<close>.
\<close>

theorem empty_variants_do_not_compare:
  assumes "Types \<noteq> []" and "length Types < 2 ^ 64" and "\<not> valid a" and "\<not> valid b"
  shows "variant_equal Types eq a b = Inl (bad_variant_access ''in get<T>()'') \<and>
         variant_less Types lt a b = Inl (bad_variant_access ''in get<T>()'') \<and>
         \<not> valid (variant_no_init :: 'v variant)"
proof -
  from assms(3,4) have tags: "type_index a = invalid_value" "type_index b = invalid_value"
    by (simp_all add: valid_def)
  then show ?thesis
    by (simp add: variant_equal_def variant_less_def get_type_index_def valid_def
        variant_no_init_def visit_invalid [OF assms(1,2)])
qed

theorem empty_variants_do_not_compare_witness:
  "variant_equal [TInt, TLong, TString] cxx_eq variant_no_init variant_no_init =
     Inl (bad_variant_access ''in get<T>()'') \<and>
   variant_less [TInt, TLong, TString] cxx_less variant_no_init variant_no_init =
     Inl (bad_variant_access ''in get<T>()'')"
proof -
  have "[TInt, TLong, TString] \<noteq> []" and "length [TInt, TLong, TString] < 2 ^ 64"
    and "\<not> valid (variant_no_init :: cxx_value variant)"
    by (simp_all add: valid_def variant_no_init_def)
  from empty_variants_do_not_compare [OF this this(3)] show ?thesis
    by blast
qed

subsection \<open>C5: equality\<close>

text \<open>
  C5. Two variants are equal under \<^verbatim>\<open>operator==\<close> if and only if their tags match and
  the active values are equal under the equality of the active alternative; the tags
  match exactly when the active alternatives are the same, so two variants that hold
  different alternatives are never equal, whatever their storage holds.
\<close>

theorem equal_iff_same_tag_and_equal_values:
  assumes "length Types < 2 ^ 64"
    and "variant_is Types A a = Inr True" and "data a = Some x"
    and "variant_is Types B b = Inr True" and "data b = Some y"
  shows "variant_equal Types eq a b = Inr (get_type_index a = get_type_index b \<and> eq A x y) \<and>
         (get_type_index a = get_type_index b \<longleftrightarrow> A = B)"
proof -
  from assms(2,4) have A: "A \<in> set Types" "type_index a = direct_type A Types"
    and B: "B \<in> set Types" "type_index b = direct_type B Types"
    by (simp_all add: holds_alternative)
  have tags: "type_index a = type_index b \<longleftrightarrow> A = B"
    using direct_type_inject [OF A(1) B(1) assms(1)] A(2) B(2) by auto
  show ?thesis
  proof (cases "A = B")
    case True
    with B(2) have "type_index b = direct_type A Types" by simp
    from comparer_active [OF A(1,2) this assms(1,3,5)] True tags show ?thesis
      by (simp add: variant_equal_def get_type_index_def equal_comp_def)
  next
    case False
    with tags show ?thesis
      by (simp add: variant_equal_def get_type_index_def)
  qed
qed

theorem equal_iff_same_tag_and_equal_values_witness:
  "variant_equal [TInt, TLong, TString] cxx_eq
     \<lparr>type_index = 2, data = Some (IntV 5)\<rparr> \<lparr>type_index = 1, data = Some (IntV 5)\<rparr> = Inr False \<and>
   variant_equal [TInt, TLong, TString] cxx_eq
     \<lparr>type_index = 2, data = Some (IntV 5)\<rparr> \<lparr>type_index = 2, data = Some (IntV 5)\<rparr> = Inr True \<and>
   variant_equal [TInt, TLong, TString] cxx_eq
     \<lparr>type_index = 2, data = Some (IntV 5)\<rparr> \<lparr>type_index = 2, data = Some (IntV 6)\<rparr> = Inr False"
proof -
  let ?Types = "[TInt, TLong, TString]"
  have len: "length ?Types < 2 ^ 64" by simp
  have a: "variant_is ?Types TInt \<lparr>type_index = 2, data = Some (IntV 5)\<rparr> = Inr True"
      "data \<lparr>type_index = 2, data = Some (IntV 5)\<rparr> = Some (IntV 5)"
    and b: "variant_is ?Types TLong \<lparr>type_index = 1, data = Some (IntV 5)\<rparr> = Inr True"
      "data \<lparr>type_index = 1, data = Some (IntV 5)\<rparr> = Some (IntV 5)"
    and c: "variant_is ?Types TInt \<lparr>type_index = 2, data = Some (IntV 6)\<rparr> = Inr True"
      "data \<lparr>type_index = 2, data = Some (IntV 6)\<rparr> = Some (IntV 6)"
    by (simp_all add: variant_is_def sizeof_pack_def)
  from equal_iff_same_tag_and_equal_values [OF len a b, of cxx_eq]
    equal_iff_same_tag_and_equal_values [OF len a a, of cxx_eq]
    equal_iff_same_tag_and_equal_values [OF len a c, of cxx_eq]
  show ?thesis
    by (simp add: get_type_index_def cxx_eq_def)
qed

lemma word_of_nat_less64:
  assumes "m < 2 ^ 64" and "n < 2 ^ 64"
  shows "(of_nat m :: size_t) < of_nat n \<longleftrightarrow> m < n"
  using assms by (simp add: word_less_nat_alt unat_of_nat)

subsection \<open>C1: ordering\<close>

text \<open>
  C1 says that a value whose alternative is declared at position \<open>i\<close> compares less
  than every value whose alternative is declared at a later position \<open>j\<close>. What
  \<^verbatim>\<open>operator<\<close> compares is the raw tag, which counts down along the declaration
  order: the value of the later alternative is the smaller one, whatever the payloads.
\<close>

theorem less_orders_later_alternative_first:
  assumes "distinct Types" and "length Types < 2 ^ 64" and "i < j" and "j < length Types"
    and "variant_is Types (Types ! i) a = Inr True"
    and "variant_is Types (Types ! j) b = Inr True"
  shows "variant_less Types lt a b = Inr False \<and> variant_less Types lt b a = Inr True"
proof -
  from assms(3,4) have i: "i < length Types" by simp
  from assms(5) have "type_index a = direct_type (Types ! i) Types"
    by (simp add: holds_alternative)
  with direct_type_nth [OF assms(1) i]
  have a: "type_index a = of_nat (length Types - Suc i)" by simp
  from assms(6) have "type_index b = direct_type (Types ! j) Types"
    by (simp add: holds_alternative)
  with direct_type_nth [OF assms(1,4)]
  have b: "type_index b = of_nat (length Types - Suc j)" by simp
  have bounds: "length Types - Suc i < 2 ^ 64" "length Types - Suc j < 2 ^ 64"
    using assms(2) by simp_all
  have "length Types - Suc j < length Types - Suc i"
    using assms(3,4) by simp
  then have "(of_nat (length Types - Suc j) :: size_t) < of_nat (length Types - Suc i)"
    by (rule word_of_nat_less64 [OF bounds(2,1), THEN iffD2])
  then have "type_index b < type_index a"
    by (simp only: a b)
  then have "\<not> type_index a < type_index b" and "type_index a \<noteq> type_index b"
    by auto
  with \<open>type_index b < type_index a\<close> show ?thesis
    by (auto simp: variant_less_def get_type_index_def)
qed

theorem less_orders_later_alternative_first_witness:
  "variant_less [TInt, TString] cxx_less
     \<lparr>type_index = 1, data = Some (IntV 1000000)\<rparr> \<lparr>type_index = 0, data = Some (StringV [])\<rparr> =
     Inr False \<and>
   variant_less [TInt, TString] cxx_less
     \<lparr>type_index = 0, data = Some (StringV [])\<rparr> \<lparr>type_index = 1, data = Some (IntV 1000000)\<rparr> =
     Inr True \<and>
   variant_from cxx_convertible cxx_construct [TInt, TString] TInt (IntV 1000000) =
     Inr \<lparr>type_index = 1, data = Some (IntV 1000000)\<rparr> \<and>
   variant_from cxx_convertible cxx_construct [TInt, TString] TString (StringV []) =
     Inr \<lparr>type_index = 0, data = Some (StringV [])\<rparr>"
proof -
  let ?Types = "[TInt, TString]"
  have "distinct ?Types" and "length ?Types < 2 ^ 64" and "(0::nat) < 1" and "1 < length ?Types"
    and "variant_is ?Types (?Types ! 0) \<lparr>type_index = 1, data = Some (IntV 1000000)\<rparr> = Inr True"
    and "variant_is ?Types (?Types ! 1) \<lparr>type_index = 0, data = Some (StringV [])\<rparr> = Inr True"
    by (simp_all add: variant_is_def sizeof_pack_def)
  from less_orders_later_alternative_first [OF this, of cxx_less]
  show ?thesis
    by (simp add: variant_from_def value_traits_index_def sizeof_pack_def invalid_value_def
        cxx_construct_def Let_def)
qed

lemma static_cast_int:
  assumes "i < 2 ^ 31"
  shows "sint (ucast (of_nat i :: size_t) :: 32 word) = int i"
proof -
  from assms have "i < 2 ^ 64"
    by (rule less_trans) simp
  then have "take_bit 64 i = i"
    by (simp add: take_bit_nat_eq_self)
  then have "(ucast (of_nat i :: size_t) :: 32 word) = word_of_int (int i)"
    by (simp add: unsigned_of_nat)
  moreover have "signed_take_bit 31 (int i) = int i"
    using assms by (simp add: signed_take_bit_int_eq_self)
  ultimately show ?thesis
    by (simp add: signed_of_nat)
qed


lemma which_of_tag:
  assumes "n < length Types" and "length Types < 2 ^ 31" and "type_index v = of_nat n"
  shows "which Types v = int (length Types - Suc n)"
proof -
  from assms(1) have "length Types = (length Types - Suc n) + n + 1"
    by simp
  then have "(of_nat (length Types) :: size_t) = of_nat ((length Types - Suc n) + n + 1)"
    by (rule arg_cong)
  then have e: "sizeof_pack Types - of_nat n - 1 = (of_nat (length Types - Suc n) :: size_t)"
    by (simp add: sizeof_pack_def)
  from assms(2) have "length Types - Suc n < 2 ^ 31"
    by simp
  then show ?thesis
    unfolding which_def assms(3) e by (rule static_cast_int)
qed

subsection \<open>C7: tags and positions\<close>

text \<open>
  C7 says that the raw tag of an alternative is its position in the declared list, and
  that a default-constructed variant has tag 0. In \<^verbatim>\<open>variant<int, std::string>\<close> the
  default-constructed variant holds \<^verbatim>\<open>int\<close>, the first alternative, and its raw tag is 1.
\<close>

theorem default_constructed_tag_counterexample:
  "variant_default cxx_default [TInt, TString] = Inr \<lparr>type_index = 1, data = Some (IntV 0)\<rparr> \<and>
   variant_is [TInt, TString] ([TInt, TString] ! 0) \<lparr>type_index = 1, data = Some (IntV 0)\<rparr> = Inr True \<and>
   get_type_index \<lparr>type_index = 1, data = Some (IntV 0)\<rparr> \<noteq> 0"
  by (simp add: variant_default_def variant_is_def get_type_index_def sizeof_pack_def)

text \<open>
  C7, amended. With \<open>N\<close> alternatives, the raw tag of the alternative at position \<open>i\<close>,
  as \<^verbatim>\<open>get_type_index()\<close> reports it, is \<open>N - 1 - i\<close>, and \<^verbatim>\<open>which()\<close> reports the
  position \<open>i\<close>. A default-constructed variant holds the first declared alternative, with
  raw tag \<open>N - 1\<close> and \<^verbatim>\<open>which()\<close> 0; default construction is rejected when the first
  alternative is not default constructible.
\<close>

theorem tag_counts_down_from_first_alternative:
  fixes Types :: "'t list" and v :: "'v variant"
  assumes "distinct Types" and "length Types < 2 ^ 31" and "i < length Types"
    and "variant_is Types (Types ! i) v = Inr True"
  shows "get_type_index v = of_nat (length Types - 1 - i) \<and> which Types v = int i \<and>
         (\<forall>default_ctor. \<forall>x :: 'v. default_ctor (Types ! 0) = Some (Inr x) \<longrightarrow>
            variant_default default_ctor Types =
              Inr \<lparr>type_index = of_nat (length Types - 1), data = Some x\<rparr> \<and>
            variant_is Types (Types ! 0) \<lparr>type_index = of_nat (length Types - 1), data = Some x\<rparr> =
              Inr True \<and>
            which Types \<lparr>type_index = of_nat (length Types - 1), data = Some x\<rparr> = 0) \<and>
         (\<forall>default_ctor :: 't \<Rightarrow> (error + 'v) option. default_ctor (Types ! 0) = None \<longrightarrow>
            (\<exists>m. variant_default default_ctor Types = Inl (static_assert_failed m)))"
proof -
  from assms(3) obtain First Rest where Types: "Types = First # Rest"
    by (cases Types) auto
  from assms(4) have "type_index v = direct_type (Types ! i) Types"
    by (simp add: holds_alternative)
  with direct_type_nth [OF assms(1,3)]
  have tag: "type_index v = of_nat (length Types - Suc i)" by simp
  have "length Types - Suc i < length Types"
    using assms(3) by simp
  from which_of_tag [OF this assms(2) tag] assms(3)
  have which_v: "which Types v = int i" by simp
  have first_tag: "direct_type (Types ! 0) Types = of_nat (length Types - 1)"
    by (simp add: Types sizeof_pack_def)
  have "which Types \<lparr>type_index = of_nat (length Types - 1), data = d\<rparr> = 0" for d :: "'v option"
    using which_of_tag [of "length Types - 1" Types "\<lparr>type_index = of_nat (length Types - 1), data = d\<rparr>"]
      assms(2) by (simp add: Types)
  moreover have "variant_is Types (Types ! 0) \<lparr>type_index = of_nat (length Types - 1), data = d\<rparr> = Inr True"
    for d :: "'v option"
    by (simp add: holds_alternative first_tag) (simp add: Types)
  moreover have "variant_default default_ctor Types =
      Inr \<lparr>type_index = of_nat (length Types - 1), data = Some x\<rparr>"
    if "default_ctor (Types ! 0) = Some (Inr x)" for default_ctor and x :: 'v
    using that by (simp add: variant_default_def Types sizeof_pack_def)
  moreover have "\<exists>m. variant_default default_ctor Types = Inl (static_assert_failed m)"
    if "default_ctor (Types ! 0) = None" for default_ctor :: "'t \<Rightarrow> (error + 'v) option"
    using that by (simp add: variant_default_def Types)
  ultimately show ?thesis
    using tag which_v by (simp add: get_type_index_def)
qed


theorem tag_counts_down_from_first_alternative_witness:
  "get_type_index \<lparr>type_index = 0, data = Some (StringV ''abc'')\<rparr> = of_nat (3 - 1 - 2) \<and>
   which [TInt, TLong, TString] \<lparr>type_index = 0, data = Some (StringV ''abc'')\<rparr> = 2 \<and>
   variant_default cxx_default [TInt, TLong, TString] = Inr \<lparr>type_index = 2, data = Some (IntV 0)\<rparr> \<and>
   which [TInt, TLong, TString] \<lparr>type_index = 2, data = Some (IntV 0)\<rparr> = 0"
proof -
  let ?Types = "[TInt, TLong, TString]"
  have "distinct ?Types" and "length ?Types < 2 ^ 31" and "2 < length ?Types"
    and "variant_is ?Types (?Types ! 2) \<lparr>type_index = 0, data = Some (StringV ''abc'')\<rparr> = Inr True"
    by (simp_all add: variant_is_def sizeof_pack_def)
  note all = tag_counts_down_from_first_alternative [OF this]
  note tag = all [THEN conjunct1]
    and pos = all [THEN conjunct2, THEN conjunct1]
    and dflt = all [THEN conjunct2, THEN conjunct2, THEN conjunct1, rule_format, of cxx_default "IntV 0"]
  from tag pos dflt show ?thesis
    by simp
qed

lemma get_active:
  assumes "T \<in> set Types" and "type_index v = direct_type T Types" and "length Types < 2 ^ 64"
    and "data v = Some x"
  shows "get Types T v = Inr x"
  using direct_type_valid [OF assms(1,3)] assms(2,4) by (simp add: get_def)

lemma binary_visit_active:
  assumes "length Types < 2 ^ 64"
    and "variant_is Types A v0 = Inr True" and "data v0 = Some x"
    and "variant_is Types B v1 = Inr True" and "data v1 = Some y"
  shows "binary_visit Types f v0 v1 = f A x B y"
proof -
  from assms(2,4) have A: "A \<in> set Types" "type_index v0 = direct_type A Types"
    and B: "B \<in> set Types" "type_index v1 = direct_type B Types"
    by (simp_all add: holds_alternative)
  have "alternative_of_tag Types (type_index v0) = Some A"
    and "alternative_of_tag Types (type_index v1) = Some B"
    using alternative_of_direct_type [OF A(1) assms(1)] alternative_of_direct_type [OF B(1) assms(1)]
    by (simp_all add: A(2) B(2))
  then have "binary_visit Types f v0 v1 = call_binary Types f A v0 B v1"
    unfolding binary_visit_def by (rule binary_dispatcher_scan)
  also have "\<dots> = f A x B y"
    by (simp add: call_binary_def unwrapper_apply_const_def
        get_active [OF A assms(1,3)] get_active [OF B assms(1,5)])
  finally show ?thesis .
qed

subsection \<open>C6: binary visitation\<close>

text \<open>
  C6. When the two operands hold the alternatives \<open>A\<close> and \<open>B\<close> with the values \<open>x\<close> and
  \<open>y\<close>, binary visitation is the one call of the visitor on \<open>x\<close> at type \<open>A\<close> and \<open>y\<close> at
  type \<open>B\<close>: on both values of the same alternative when \<open>A = B\<close>, and on each operand at
  its own alternative when they differ. A visitor that adds two numbers, applied to
  variants holding 3 and 4, returns 7.
\<close>

theorem binary_visit_calls_visitor_on_both_values:
  assumes "length Types < 2 ^ 64"
    and "variant_is Types A v0 = Inr True" and "data v0 = Some x"
    and "variant_is Types B v1 = Inr True" and "data v1 = Some y"
  shows "binary_visit Types f v0 v1 = f A x B y \<and>
         binary_visit [TInt, TLong, TString] cxx_sum
           \<lparr>type_index = 2, data = Some (IntV 3)\<rparr> \<lparr>type_index = 2, data = Some (IntV 4)\<rparr> = Inr 7"
proof -
  let ?Types = "[TInt, TLong, TString]"
  have "length ?Types < 2 ^ 64"
    and "variant_is ?Types TInt \<lparr>type_index = 2, data = Some (IntV 3)\<rparr> = Inr True"
    and "data \<lparr>type_index = 2, data = Some (IntV 3)\<rparr> = Some (IntV 3)"
    and "variant_is ?Types TInt \<lparr>type_index = 2, data = Some (IntV 4)\<rparr> = Inr True"
    and "data \<lparr>type_index = 2, data = Some (IntV 4)\<rparr> = Some (IntV 4)"
    by (simp_all add: variant_is_def sizeof_pack_def)
  from binary_visit_active [OF this, of cxx_sum]
  have "binary_visit ?Types cxx_sum
      \<lparr>type_index = 2, data = Some (IntV 3)\<rparr> \<lparr>type_index = 2, data = Some (IntV 4)\<rparr> = Inr 7"
    by (simp add: cxx_sum_def)
  then show ?thesis
    using binary_visit_active [OF assms, of f] by simp
qed

theorem binary_visit_calls_visitor_on_both_values_witness:
  "variant_from cxx_convertible cxx_construct [TInt, TLong, TString] TInt (IntV 3) =
     Inr \<lparr>type_index = 2, data = Some (IntV 3)\<rparr> \<and>
   variant_from cxx_convertible cxx_construct [TInt, TLong, TString] TLong (LongV 4) =
     Inr \<lparr>type_index = 1, data = Some (LongV 4)\<rparr> \<and>
   binary_visit [TInt, TLong, TString] cxx_sum
     \<lparr>type_index = 2, data = Some (IntV 3)\<rparr> \<lparr>type_index = 1, data = Some (LongV 4)\<rparr> = Inr 7 \<and>
   binary_visit [TInt, TLong, TString] (\<lambda>A x B y. Inr (A, x, B, y) :: error + _)
     \<lparr>type_index = 0, data = Some (StringV ''s'')\<rparr> \<lparr>type_index = 2, data = Some (IntV 3)\<rparr> =
     Inr (TString, StringV ''s'', TInt, IntV 3)"
proof -
  let ?Types = "[TInt, TLong, TString]"
  have len: "length ?Types < 2 ^ 64" by simp
  have i: "variant_is ?Types TInt \<lparr>type_index = 2, data = Some (IntV 3)\<rparr> = Inr True"
      "data \<lparr>type_index = 2, data = Some (IntV 3)\<rparr> = Some (IntV 3)"
    and l: "variant_is ?Types TLong \<lparr>type_index = 1, data = Some (LongV 4)\<rparr> = Inr True"
      "data \<lparr>type_index = 1, data = Some (LongV 4)\<rparr> = Some (LongV 4)"
    and s: "variant_is ?Types TString \<lparr>type_index = 0, data = Some (StringV ''s'')\<rparr> = Inr True"
      "data \<lparr>type_index = 0, data = Some (StringV ''s'')\<rparr> = Some (StringV ''s'')"
    by (simp_all add: variant_is_def sizeof_pack_def)
  note sum = binary_visit_calls_visitor_on_both_values [OF len i l, of cxx_sum, THEN conjunct1]
    and pair = binary_visit_calls_visitor_on_both_values
      [OF len s i, of "\<lambda>A x B y. Inr (A, x, B, y)", THEN conjunct1]
  from sum pair show ?thesis
    by (simp add: cxx_sum_def variant_from_def value_traits_index_def sizeof_pack_def
        invalid_value_def cxx_construct_def Let_def)
qed

lemma active_alternative_of_tag:
  assumes "variant_is Types T v = Inr True" and "length Types < 2 ^ 64"
  shows "alternative_of_tag Types (type_index v) = Some T"
  using assms alternative_of_direct_type [of T Types] by (simp add: holds_alternative)

subsection \<open>C9: move construction\<close>

text \<open>
  C9. Move construction from a variant that holds the alternative \<open>T\<close> calls the move
  constructor of \<open>T\<close> once, on the stored value, and gives the new variant the tag of
  the source. The tag of the source is not written: the source keeps it, with the
  payload the move constructor of \<open>T\<close> leaves behind, so that its destruction calls the
  destructor of \<open>T\<close> once.
\<close>

theorem move_construction_leaves_source_tag:
  assumes "length Types < 2 ^ 64"
    and "variant_is Types T old = Inr True" and "data old = Some x"
    and "move_ctor T x = (Inr y, x')"
  shows "variant_move move_ctor Types old =
           ([Move T], Inr \<lparr>type_index = type_index old, data = Some y\<rparr>, old\<lparr>data := Some x'\<rparr>) \<and>
         type_index (snd (snd (variant_move move_ctor Types old))) = type_index old \<and>
         variant_is Types T (snd (snd (variant_move move_ctor Types old))) = Inr True \<and>
         variant_dtor Types (snd (snd (variant_move move_ctor Types old))) = ([Destroy T], None)"
proof -
  note tag = active_alternative_of_tag [OF assms(2,1)]
  have moved: "variant_move move_ctor Types old =
      ([Move T], Inr \<lparr>type_index = type_index old, data = Some y\<rparr>, old\<lparr>data := Some x'\<rparr>)"
    by (simp add: variant_move_def variant_helper_move_scan tag assms(3,4))
  moreover have "variant_dtor Types (old\<lparr>data := Some x'\<rparr>) = ([Destroy T], None)"
    by (simp add: variant_dtor_def variant_helper_destroy_scan tag)
  moreover have "variant_is Types T (old\<lparr>data := Some x'\<rparr>) = Inr True"
    using assms(2) by (simp add: variant_is_def split: if_splits)
  ultimately show ?thesis
    by simp
qed

theorem move_construction_leaves_source_tag_witness:
  "variant_move cxx_move [TInt, TLong, TString] \<lparr>type_index = 0, data = Some (StringV ''abc'')\<rparr> =
     ([Move TString], Inr \<lparr>type_index = 0, data = Some (StringV ''abc'')\<rparr>,
      \<lparr>type_index = 0, data = Some (StringV [])\<rparr>) \<and>
   variant_dtor [TInt, TLong, TString] \<lparr>type_index = 0, data = Some (StringV [])\<rparr> =
     ([Destroy TString], None)"
proof -
  let ?Types = "[TInt, TLong, TString]"
  have "length ?Types < 2 ^ 64"
    and "variant_is ?Types TString \<lparr>type_index = 0, data = Some (StringV ''abc'')\<rparr> = Inr True"
    and "data \<lparr>type_index = 0, data = Some (StringV ''abc'')\<rparr> = Some (StringV ''abc'')"
    and "cxx_move TString (StringV ''abc'') = (Inr (StringV ''abc''), StringV [])"
    by (simp_all add: variant_is_def sizeof_pack_def)
  note all = move_construction_leaves_source_tag [where move_ctor = cxx_move and T = TString, OF this]
  from all [THEN conjunct1] all [THEN conjunct2, THEN conjunct2, THEN conjunct2] show ?thesis
    by simp
qed


lemma variant_overwritten:
  "(v :: 'v variant)\<lparr>type_index := tag, data := d\<rparr> = \<lparr>type_index = tag, data = d\<rparr>"
  "(v :: 'v variant)\<lparr>data := d, type_index := tag\<rparr> = \<lparr>type_index = tag, data = d\<rparr>"
  by (cases v; simp)+



lemma copy_assign_self:
  fixes s :: "'a \<Rightarrow> 'v variant"
  assumes "length Types < 2 ^ 64" and "variant_is Types U (s this) = Inr True"
  shows "copy_assign copy_ctor Types this this s =
           ([Destroy U, Tag invalid_value, Tag invalid_value], None, s(this := variant_no_init))"
  by (simp add: copy_assign_def variant_helper_destroy_scan variant_helper_copy_scan
      active_alternative_of_tag [OF assms(2,1)] alternative_of_tag_invalid [OF assms(1)]
      variant_no_init_def variant_overwritten)

subsection \<open>C4: assignment\<close>




subsection \<open>C8: types outside the pack\<close>

text \<open>
  C8 says that \<^verbatim>\<open>get<T>()\<close>, \<^verbatim>\<open>is<T>()\<close> and \<^verbatim>\<open>set<T>()\<close> with a type \<open>T\<close> outside the
  declared alternatives are rejected when the program is built. For \<^verbatim>\<open>is\<close> the
  \<^verbatim>\<open>static_assert\<close> does so and for \<^verbatim>\<open>get\<close> the \<^verbatim>\<open>enable_if\<close>; \<^verbatim>\<open>set\<close> has neither and
  runs: it destroys the active alternative, constructs a \<open>T\<close> in the storage and leaves
  the tag at \<^verbatim>\<open>invalid_value\<close>, the index \<^verbatim>\<open>direct_type\<close> gives a type outside the pack.
\<close>

theorem set_runs_for_type_outside_pack:
  assumes "T \<notin> set Types" and "ctor T args = Inr x"
  shows "variant_is Types T v =
           Inl (static_assert_failed ''invalid type in T in `is<T>()` for this variant'') \<and>
         get Types T v = Inl no_matching_function \<and>
         get_nonconst Types T v = (Inl no_matching_function, v) \<and>
         variant_set ctor Types T args v =
           (fst (variant_dtor Types v) @ [Tag invalid_value, Construct T, Tag invalid_value], None,
            \<lparr>type_index = invalid_value, data = Some x\<rparr>)"
proof -
  note outside = direct_type_outside [OF assms(1)]
  have "variant_is Types T v =
      Inl (static_assert_failed ''invalid type in T in `is<T>()` for this variant'')"
    using assms(1) by (simp add: variant_is_def has_type_set)
  moreover have "get Types T v = Inl no_matching_function"
    by (simp add: get_def outside)
  moreover have "variant_set ctor Types T args v =
      (fst (variant_dtor Types v) @ [Tag invalid_value, Construct T, Tag invalid_value], None,
       \<lparr>type_index = invalid_value, data = Some x\<rparr>)"
    by (simp add: variant_set_def variant_dtor_def assms(2) outside variant_overwritten
        split: prod.splits)
  ultimately show ?thesis
    by (simp add: get_nonconst_def)
qed

theorem set_runs_for_type_outside_pack_witness:
  "variant_set (\<lambda>T n. Inr (LongV n)) [TInt, TString] TLong 7 \<lparr>type_index = 1, data = Some (IntV 3)\<rparr> =
     ([Destroy TInt, Tag invalid_value, Construct TLong, Tag invalid_value], None,
      \<lparr>type_index = invalid_value, data = Some (LongV 7)\<rparr>) \<and>
   \<not> valid \<lparr>type_index = invalid_value, data = Some (LongV 7)\<rparr> \<and>
   variant_dtor [TInt, TString] \<lparr>type_index = invalid_value, data = Some (LongV 7)\<rparr> =
     ([], Some (LongV 7))"
proof -
  have "TLong \<notin> set [TInt, TString]" and "(\<lambda>T n. Inr (LongV n)) TLong 7 = Inr (LongV 7)"
    by simp_all
  note all = set_runs_for_type_outside_pack
      [where ctor = "\<lambda>T n. Inr (LongV n)" and T = TLong and args = 7
         and v = "\<lparr>type_index = 1, data = Some (IntV 3)\<rparr>", OF this]
  from all [THEN conjunct2, THEN conjunct2, THEN conjunct2] show ?thesis
    by (simp add: variant_dtor_def valid_def sizeof_pack_def invalid_value_def)
qed

end
